theory Spec2Isabelle
  imports Complex_Main
begin

section \<open>The metrics gate of the AutoML Tables pipeline notebook\<close>

text \<open>
  The component function \<open>eval_metrics\<close> of
  \<^verbatim>\<open>ml/automl/tables/xai/automl_tables_xai.ipynb\<close>:
  \<^verbatim>\<open>
  def eval_metrics(metrics: str, thresholds: str
  ) -> NamedTuple('Outputs', [('deploy', str)]):
    import json
    import logging

    def regression_threshold_check(metrics_info):
      for k, v in thresholds_dict.items():
        logging.info('k {}, v {}'.format(k, v))
        if k in ['root_mean_squared_error', 'mae']:
          if metrics_info[k][-1] > v:
            logging.info('{} > {}; returning False'.format(metrics_info[k][0], v))
            return ('False', )
      return ('deploy', )

    logging.getLogger().setLevel(logging.INFO)

    thresholds_dict = json.loads(thresholds)
    logging.info('thresholds dict: {}'.format(thresholds_dict))
    logging.info('metrics: %s', metrics)
    metrics_dict = json.loads(metrics)

    logging.info("got metrics info: %s", metrics_dict)
    res = regression_threshold_check(metrics_dict)
    logging.info('deploy decision: %s', res)
    return res
  \<close>
\<close>

subsection \<open>Python values produced by \<open>json.loads\<close>\<close>

text \<open>
  A Python \<open>float\<close> is a finite double, held here by its exact rational value, or one
  of the three special values that \<open>json.loads\<close> accepts as \<open>Infinity\<close>,
  \<open>-Infinity\<close> and \<open>NaN\<close>. Python's \<open>int\<close> is unbounded. A \<open>dict\<close> is the list of
  its items in insertion order, which for \<open>json.loads\<close> is the order of the document;
  its keys are strings and pairwise distinct.
\<close>

datatype pyfloat = Finite rat | Infinity | NegInfinity | NaN

datatype pyval =
    PyNone
  | PyBool bool
  | PyInt int
  | PyFloat pyfloat
  | PyStr string
  | PyList "pyval list"
  | PyDict "(string \<times> pyval) list"

datatype pyerror =
    KeyError pyval
  | IndexError
  | TypeError
  | AttributeError
  | JSONDecodeError

text \<open>\<open>bool\<close> is a subclass of \<open>int\<close>: \<open>True\<close> counts as 1 and \<open>False\<close> as 0.\<close>

fun as_number :: "pyval \<Rightarrow> pyfloat option" where
  "as_number (PyBool b) = Some (Finite (if b then 1 else 0))"
| "as_number (PyInt i) = Some (Finite (of_int i))"
| "as_number (PyFloat f) = Some f"
| "as_number PyNone = None"
| "as_number (PyStr s) = None"
| "as_number (PyList xs) = None"
| "as_number (PyDict d) = None"

text \<open>
  \<open>a > b\<close> on numbers: exact on finite values (Python compares an \<open>int\<close> with a
  \<open>float\<close> without rounding), and false whenever an operand is \<open>NaN\<close>.
\<close>

fun float_gt :: "pyfloat \<Rightarrow> pyfloat \<Rightarrow> bool" where
  "float_gt NaN b = False"
| "float_gt a NaN = False"
| "float_gt (Finite a) (Finite b) = (a > b)"
| "float_gt (Finite a) Infinity = False"
| "float_gt (Finite a) NegInfinity = True"
| "float_gt Infinity Infinity = False"
| "float_gt Infinity b = True"
| "float_gt NegInfinity b = False"

text \<open>\<open>a > b\<close> on strings: lexicographic on the code points.\<close>

fun str_gt :: "string \<Rightarrow> string \<Rightarrow> bool" where
  "str_gt [] bs = False"
| "str_gt (a # as) [] = True"
| "str_gt (a # as) (b # bs) =
     (if a = b then str_gt as bs else (of_char a :: nat) > of_char b)"

text \<open>
  The equality test that list and dict comparison apply to their elements: the same
  object, or \<open>==\<close>. Numbers are equal across \<open>bool\<close>, \<open>int\<close> and \<open>float\<close> by value.
  \<open>json.loads\<close> returns one and the same \<open>NaN\<close> object for every \<open>NaN\<close> of a document,
  so inside containers a \<open>NaN\<close> equals a \<open>NaN\<close>.
\<close>

fun elem_eq :: "pyval \<Rightarrow> pyval \<Rightarrow> bool"
  and list_eq :: "pyval list \<Rightarrow> pyval list \<Rightarrow> bool"
  and items_in :: "(string \<times> pyval) list \<Rightarrow> (string \<times> pyval) list \<Rightarrow> bool" where
  "elem_eq (PyList a) y = (case y of PyList b \<Rightarrow> list_eq a b | _ \<Rightarrow> False)"
| "elem_eq (PyDict a) y =
     (case y of PyDict b \<Rightarrow> length a = length b \<and> items_in a b | _ \<Rightarrow> False)"
| "elem_eq (PyStr a) y = (case y of PyStr b \<Rightarrow> a = b | _ \<Rightarrow> False)"
| "elem_eq PyNone y = (case y of PyNone \<Rightarrow> True | _ \<Rightarrow> False)"
| "elem_eq (PyBool a) y = (as_number y = as_number (PyBool a))"
| "elem_eq (PyInt a) y = (as_number y = as_number (PyInt a))"
| "elem_eq (PyFloat a) y = (as_number y = Some a)"
| "list_eq [] ys = (ys = [])"
| "list_eq (x # xs) ys = (case ys of [] \<Rightarrow> False | y # ys' \<Rightarrow> elem_eq x y \<and> list_eq xs ys')"
| "items_in [] b = True"
| "items_in (kv # a) b =
     (case map_of b (fst kv) of None \<Rightarrow> False | Some w \<Rightarrow> elem_eq (snd kv) w \<and> items_in a b)"

text \<open>
  \<open>a > b\<close> on the values of a JSON document. Numbers compare with numbers, strings with
  strings, and lists with lists: the first pair of unequal elements decides, and where
  there is none the longer list is the greater. Every other pair of operands raises
  \<open>TypeError\<close>.
\<close>

fun py_gt :: "pyval \<Rightarrow> pyval \<Rightarrow> pyerror + bool"
  and list_gt :: "pyval list \<Rightarrow> pyval list \<Rightarrow> pyerror + bool" where
  "py_gt (PyList a) y = (case y of PyList b \<Rightarrow> list_gt a b | _ \<Rightarrow> Inl TypeError)"
| "py_gt (PyStr a) y = (case y of PyStr b \<Rightarrow> Inr (str_gt a b) | _ \<Rightarrow> Inl TypeError)"
| "py_gt PyNone y = Inl TypeError"
| "py_gt (PyDict a) y = Inl TypeError"
| "py_gt (PyBool a) y =
     (case as_number y of Some n \<Rightarrow> Inr (float_gt (Finite (if a then 1 else 0)) n)
      | None \<Rightarrow> Inl TypeError)"
| "py_gt (PyInt a) y =
     (case as_number y of Some n \<Rightarrow> Inr (float_gt (Finite (of_int a)) n)
      | None \<Rightarrow> Inl TypeError)"
| "py_gt (PyFloat a) y =
     (case as_number y of Some n \<Rightarrow> Inr (float_gt a n) | None \<Rightarrow> Inl TypeError)"
| "list_gt [] ys = Inr False"
| "list_gt (x # xs) ys =
     (case ys of [] \<Rightarrow> Inr True
      | y # ys' \<Rightarrow> if elem_eq x y then list_gt xs ys' else py_gt x y)"

text \<open>
  Subscription \<open>obj[i]\<close> with an integer: a negative index counts from the end, an index
  out of range raises \<open>IndexError\<close>. A dict from a JSON document has string keys only, so
  an integer key is never present. \<open>None\<close> and numbers are not subscriptable.
\<close>

definition seq_index :: "'a list \<Rightarrow> int \<Rightarrow> pyerror + 'a" where
  "seq_index xs i =
     (if 0 \<le> i \<and> i < int (length xs) then Inr (xs ! nat i)
      else if i < 0 \<and> - int (length xs) \<le> i then Inr (xs ! nat (int (length xs) + i))
      else Inl IndexError)"

fun getitem_int :: "pyval \<Rightarrow> int \<Rightarrow> pyerror + pyval" where
  "getitem_int (PyList xs) i = seq_index xs i"
| "getitem_int (PyStr s) i =
     (case seq_index s i of Inl e \<Rightarrow> Inl e | Inr c \<Rightarrow> Inr (PyStr [c]))"
| "getitem_int (PyDict d) i = Inl (KeyError (PyInt i))"
| "getitem_int x i = Inl TypeError"

text \<open>
  Subscription \<open>obj[k]\<close> with a string: a dict looks the key up and raises \<open>KeyError\<close>
  when it is absent; a list or a string takes integer indices only; \<open>None\<close> and numbers are
  not subscriptable.
\<close>

fun getitem_str :: "pyval \<Rightarrow> string \<Rightarrow> pyerror + pyval" where
  "getitem_str (PyDict d) k =
     (case map_of d k of None \<Rightarrow> Inl (KeyError (PyStr k)) | Some v \<Rightarrow> Inr v)"
| "getitem_str x k = Inl TypeError"

subsection \<open>The root logger\<close>

text \<open>
  The state of the \<open>logging\<close> module that the function reads and writes: the level of
  the root logger, its \<open>disabled\<close> flag, the level set by \<open>logging.disable\<close>
  (\<open>manager.disable\<close>), the filters of the root logger, taken together as one predicate
  on records, and the records the root logger has handed to its handlers. A record keeps
  the template of the message and its arguments; the formatted text is not modelled, nor
  is what the handlers do with a record.
\<close>

datatype log_record =
    Log_k_v string pyval
  | Log_returning_False pyval pyval
  | Log_thresholds_dict pyval
  | Log_metrics string
  | Log_got_metrics_info pyval
  | Log_deploy_decision string

record logging_state =
  root_level :: nat
  root_disabled :: bool
  manager_disable :: nat
  root_filters :: "log_record \<Rightarrow> bool"
  emitted :: "log_record list"

definition INFO :: nat where
  "INFO = 20"

definition setLevel :: "nat \<Rightarrow> logging_state \<Rightarrow> logging_state" where
  "setLevel l s = s\<lparr>root_level := l\<rparr>"

text \<open>
  \<open>Logger.isEnabledFor\<close>, on the root logger: false when the logger is disabled or when
  \<open>manager.disable\<close> is at least the level asked for, and otherwise whether that level
  reaches the level of the logger. The cache that the method keeps is taken to agree with
  these fields: \<open>setLevel\<close> and \<open>logging.disable\<close> clear it.
\<close>

definition isEnabledFor :: "nat \<Rightarrow> logging_state \<Rightarrow> bool" where
  "isEnabledFor lvl s =
     (if root_disabled s then False
      else if manager_disable s \<ge> lvl then False
      else lvl \<ge> root_level s)"

text \<open>
  \<open>logging.info\<close>: the root logger makes the record when it is enabled for \<open>INFO\<close>, and
  \<open>Logger.handle\<close> passes it on when the logger is not disabled and its filters accept
  the record.
\<close>

definition logging_info :: "log_record \<Rightarrow> logging_state \<Rightarrow> logging_state" where
  "logging_info r s =
     (if isEnabledFor INFO s then
        (if \<not> root_disabled s \<and> root_filters s r then s\<lparr>emitted := emitted s @ [r]\<rparr>
         else s)
      else s)"

text \<open>
  The state of \<open>logging\<close> in a fresh interpreter: the root logger at \<open>WARNING\<close>,
  nothing disabled, no filter, no record yet.
\<close>

definition fresh_logging :: logging_state where
  "fresh_logging =
     \<lparr>root_level = 30, root_disabled = False, manager_disable = 0,
      root_filters = (\<lambda>r. True), emitted = []\<rparr>"

subsection \<open>\<open>regression_threshold_check\<close> and \<open>eval_metrics\<close>\<close>

definition compared_names :: "string list" where
  "compared_names = [''root_mean_squared_error'', ''mae'']"

text \<open>
  The body of the \<open>for\<close> loop over \<open>thresholds_dict.items()\<close>, on the items that are
  left. The result is the field \<open>deploy\<close> of the returned tuple, or the exception raised.
\<close>

fun threshold_loop ::
  "pyval \<Rightarrow> (string \<times> pyval) list \<Rightarrow> logging_state \<Rightarrow> (pyerror + string) \<times> logging_state" where
  "threshold_loop metrics_info [] s = (Inr ''deploy'', s)"
| "threshold_loop metrics_info ((k, v) # rest) s =
     (let s1 = logging_info (Log_k_v k v) s in
      if k \<in> set compared_names then
        (case getitem_str metrics_info k of Inl e \<Rightarrow> (Inl e, s1) | Inr obs \<Rightarrow>
        (case getitem_int obs (- 1) of Inl e \<Rightarrow> (Inl e, s1) | Inr final \<Rightarrow>
        (case py_gt final v of Inl e \<Rightarrow> (Inl e, s1) | Inr exceeded \<Rightarrow>
         if exceeded then
           (case getitem_str metrics_info k of Inl e \<Rightarrow> (Inl e, s1) | Inr obs0 \<Rightarrow>
           (case getitem_int obs0 0 of Inl e \<Rightarrow> (Inl e, s1) | Inr first \<Rightarrow>
              (Inr ''False'', logging_info (Log_returning_False first v) s1)))
         else threshold_loop metrics_info rest s1)))
      else threshold_loop metrics_info rest s1)"

text \<open>
  \<open>thresholds_dict\<close> is a variable of the enclosing function; here it is the first
  argument. \<open>.items()\<close> exists on a dict only.
\<close>

definition regression_threshold_check ::
  "pyval \<Rightarrow> pyval \<Rightarrow> logging_state \<Rightarrow> (pyerror + string) \<times> logging_state" where
  "regression_threshold_check thresholds_dict metrics_info s =
     (case thresholds_dict of
        PyDict items \<Rightarrow> threshold_loop metrics_info items s
      | _ \<Rightarrow> (Inl AttributeError, s))"


subsection \<open>What one entry of the thresholds does\<close>

text \<open>
  \<open>metrics_info[k][-1]\<close> and \<open>metrics_info[k][0]\<close>, and the test
  \<open>metrics_info[k][-1] > v\<close>, each with the exception it may raise.
\<close>

definition final_observation :: "pyval \<Rightarrow> string \<Rightarrow> pyerror + pyval" where
  "final_observation metrics_info k =
     (case getitem_str metrics_info k of Inl e \<Rightarrow> Inl e | Inr obs \<Rightarrow> getitem_int obs (- 1))"

definition first_observation :: "pyval \<Rightarrow> string \<Rightarrow> pyerror + pyval" where
  "first_observation metrics_info k =
     (case getitem_str metrics_info k of Inl e \<Rightarrow> Inl e | Inr obs \<Rightarrow> getitem_int obs 0)"

definition exceeds :: "pyval \<Rightarrow> string \<Rightarrow> pyval \<Rightarrow> pyerror + bool" where
  "exceeds metrics_info k v =
     (case final_observation metrics_info k of Inl e \<Rightarrow> Inl e | Inr final \<Rightarrow> py_gt final v)"

text \<open>
  An entry violates when its name is one of the two compared names and its final
  observation is greater than its threshold; it passes when the loop goes on to the next
  entry: the name is not compared, or the test is evaluated and is false.
\<close>

definition violates :: "pyval \<Rightarrow> string \<times> pyval \<Rightarrow> bool" where
  "violates metrics_info kv =
     (fst kv \<in> set compared_names \<and> exceeds metrics_info (fst kv) (snd kv) = Inr True)"

definition passes :: "pyval \<Rightarrow> string \<times> pyval \<Rightarrow> bool" where
  "passes metrics_info kv =
     (fst kv \<notin> set compared_names \<or> exceeds metrics_info (fst kv) (snd kv) = Inr False)"

text \<open>
  The loop without the logger: the decision it returns, and the records it hands to
  \<open>logging.info\<close>, as functions of the two documents.
\<close>

fun decision :: "pyval \<Rightarrow> (string \<times> pyval) list \<Rightarrow> pyerror + string" where
  "decision metrics_info [] = Inr ''deploy''"
| "decision metrics_info ((k, v) # rest) =
     (if k \<in> set compared_names then
        (case exceeds metrics_info k v of Inl e \<Rightarrow> Inl e
         | Inr b \<Rightarrow> if b then Inr ''False'' else decision metrics_info rest)
      else decision metrics_info rest)"

fun loop_records :: "pyval \<Rightarrow> (string \<times> pyval) list \<Rightarrow> log_record list" where
  "loop_records metrics_info [] = []"
| "loop_records metrics_info ((k, v) # rest) =
     Log_k_v k v #
     (if k \<in> set compared_names then
        (case exceeds metrics_info k v of Inl e \<Rightarrow> []
         | Inr b \<Rightarrow>
             if b then
               (case first_observation metrics_info k of Inl e \<Rightarrow> []
                | Inr first \<Rightarrow> [Log_returning_False first v])
             else loop_records metrics_info rest)
      else loop_records metrics_info rest)"

fun log_all :: "log_record list \<Rightarrow> logging_state \<Rightarrow> logging_state" where
  "log_all [] s = s"
| "log_all (r # rs) s = log_all rs (logging_info r s)"

definition entry_record :: "string \<times> pyval \<Rightarrow> log_record" where
  "entry_record kv = Log_k_v (fst kv) (snd kv)"

subsection \<open>The evaluator as the specification words it\<close>

text \<open>
  The specification gives every threshold entry a direction. Where none is supplied, an
  entry whose name is one of four error-style names is violated when the final
  observation is greater than the threshold, and an entry of any other name when the
  final observation is less than the threshold. These two definitions follow those words,
  for comparison with the code.
\<close>

definition spec_lower_is_better_names :: "string list" where
  "spec_lower_is_better_names = [''root_mean_squared_error'', ''mae'', ''mse'', ''loss'']"

definition spec_violates :: "pyval \<Rightarrow> string \<times> pyval \<Rightarrow> bool" where
  "spec_violates report entry =
     (case final_observation report (fst entry) of Inl e \<Rightarrow> False
      | Inr final \<Rightarrow>
          if fst entry \<in> set spec_lower_is_better_names
          then py_gt final (snd entry) = Inr True
          else py_gt (snd entry) final = Inr True)"

subsection \<open>Reports and thresholds in the shape the documents are meant to have\<close>

text \<open>
  A report reduced to the final observation of every metric: a non-empty list of
  observations is cut down to its last element.
\<close>

fun keep_final :: "pyval \<Rightarrow> pyval" where
  "keep_final (PyList obs) = (if obs = [] then PyList [] else PyList [last obs])"
| "keep_final x = x"

definition final_only :: "pyval \<Rightarrow> pyval" where
  "final_only report =
     (case report of PyDict ms \<Rightarrow> PyDict (map (\<lambda>kv. (fst kv, keep_final (snd kv))) ms)
      | x \<Rightarrow> x)"




subsection \<open>One step of the loop\<close>

lemma getitem_first_of_final:
  "getitem_int obs (- 1) = Inr final \<Longrightarrow> \<exists>first. getitem_int obs 0 = Inr first"
  by (cases obs) (auto simp: seq_index_def split: if_splits sum.splits)

lemma first_of_final:
  "final_observation mi k = Inr final \<Longrightarrow> \<exists>first. first_observation mi k = Inr first"
  by (auto simp: final_observation_def first_observation_def split: sum.splits
      dest: getitem_first_of_final)

lemma first_of_exceeds:
  "exceeds mi k v = Inr b \<Longrightarrow> \<exists>first. first_observation mi k = Inr first"
  by (auto simp: exceeds_def split: sum.splits dest: first_of_final)

lemma loop_not_compared:
  "k \<notin> set compared_names \<Longrightarrow>
   threshold_loop mi ((k, v) # rest) s = threshold_loop mi rest (logging_info (Log_k_v k v) s)"
  by (simp add: Let_def)

lemma loop_error:
  "k \<in> set compared_names \<Longrightarrow> exceeds mi k v = Inl e \<Longrightarrow>
   threshold_loop mi ((k, v) # rest) s = (Inl e, logging_info (Log_k_v k v) s)"
  by (auto simp: Let_def exceeds_def final_observation_def split: sum.splits)

lemma loop_false:
  "k \<in> set compared_names \<Longrightarrow> exceeds mi k v = Inr False \<Longrightarrow>
   threshold_loop mi ((k, v) # rest) s = threshold_loop mi rest (logging_info (Log_k_v k v) s)"
  by (auto simp: Let_def exceeds_def final_observation_def split: sum.splits)

lemma loop_true:
  "k \<in> set compared_names \<Longrightarrow> exceeds mi k v = Inr True \<Longrightarrow>
   first_observation mi k = Inr first \<Longrightarrow>
     threshold_loop mi ((k, v) # rest) s =
       (Inr ''False'', logging_info (Log_returning_False first v) (logging_info (Log_k_v k v) s))"
  by (auto simp: Let_def exceeds_def final_observation_def first_observation_def split: sum.splits)

declare threshold_loop.simps(2) [simp del]


lemma loop_eq:
  "threshold_loop mi ts s = (decision mi ts, log_all (loop_records mi ts) s)"
proof (induction ts arbitrary: s)
  case Nil
  show ?case by simp
next
  case (Cons kv ts)
  obtain k v where kv: "kv = (k, v)" by (cases kv)
  show ?case
  proof (cases "k \<in> set compared_names")
    case False
    then show ?thesis by (simp add: kv loop_not_compared Cons.IH)
  next
    case True
    show ?thesis
    proof (cases "exceeds mi k v")
      case (Inl e)
      with True show ?thesis by (simp add: kv loop_error)
    next
      case (Inr b)
      show ?thesis
      proof (cases b)
        case False
        with True Inr show ?thesis by (simp add: kv loop_false Cons.IH)
      next
        case b: True
        from first_of_exceeds[OF Inr] obtain first where f: "first_observation mi k = Inr first" ..
        from True Inr b f show ?thesis by (simp add: kv loop_true)
      qed
    qed
  qed
qed

lemma check_eq:
  "regression_threshold_check (PyDict ts) mi s = (decision mi ts, log_all (loop_records mi ts) s)"
  by (simp add: regression_threshold_check_def loop_eq)

lemma passes_not_violates: "passes mi kv \<Longrightarrow> \<not> violates mi kv"
  by (auto simp: passes_def violates_def)

lemma decision_pass_prefix:
  "list_all (passes mi) pre \<Longrightarrow> decision mi (pre @ rest) = decision mi rest"
  by (induction pre) (auto simp: passes_def)

lemma records_pass_prefix:
  "list_all (passes mi) pre \<Longrightarrow>
   loop_records mi (pre @ rest) = map entry_record pre @ loop_records mi rest"
  by (induction pre) (auto simp: passes_def entry_record_def)

lemma decision_cases:
  "decision mi ts = Inr tok \<Longrightarrow>
   (tok = ''False'' \<and> list_ex (violates mi) ts) \<or> (tok = ''deploy'' \<and> list_all (passes mi) ts)"
  by (induction ts) (auto simp: passes_def violates_def split: if_splits sum.splits)




lemma seq_index_last: "xs \<noteq> [] \<Longrightarrow> seq_index xs (- 1) = Inr (last xs)"
  by (cases xs rule: rev_cases) (auto simp: seq_index_def nth_append)

lemma final_observation_list:
  "getitem_str mi k = Inr (PyList obs) \<Longrightarrow> obs \<noteq> [] \<Longrightarrow> final_observation mi k = Inr (last obs)"
  by (simp add: final_observation_def seq_index_last)

lemma compared_names_two:
  "a \<in> set compared_names \<Longrightarrow> b \<in> set compared_names \<Longrightarrow> a \<noteq> b \<Longrightarrow>
   c \<in> set compared_names \<Longrightarrow> c = a \<or> c = b"
  by (auto simp: compared_names_def)

lemma decision_stops:
  "list_all (passes mi) pre \<Longrightarrow> violates mi (k, v) \<Longrightarrow>
   decision mi (pre @ (k, v) # post) = Inr ''False''"
  by (simp add: decision_pass_prefix violates_def)

lemma records_stop:
  "list_all (passes mi) pre \<Longrightarrow> violates mi (k, v) \<Longrightarrow> first_observation mi k = Inr first \<Longrightarrow>
   loop_records mi (pre @ (k, v) # post) =
     map entry_record (pre @ [(k, v)]) @ [Log_returning_False first v]"
  by (simp add: records_pass_prefix violates_def entry_record_def)

lemma entry_raises:
  assumes "k \<in> set compared_names" and "exceeds mi k v = Inl e"
  shows "decision mi (pre @ (k, v) # post) \<noteq> Inr ''deploy''"
    and "list_all (passes mi) pre \<Longrightarrow> decision mi (pre @ (k, v) # post) = Inl e"
proof -
  show "decision mi (pre @ (k, v) # post) \<noteq> Inr ''deploy''"
  proof
    assume "decision mi (pre @ (k, v) # post) = Inr ''deploy''"
    from decision_cases[OF this] have "passes mi (k, v)" by simp
    with assms show False by (simp add: passes_def)
  qed
  show "list_all (passes mi) pre \<Longrightarrow> decision mi (pre @ (k, v) # post) = Inl e"
    using assms by (simp add: decision_pass_prefix)
qed

lemma py_gt_number_other:
  "as_number x = Some a \<Longrightarrow> as_number y = None \<Longrightarrow> py_gt x y = Inl TypeError"
  by (cases x) auto

lemma exceeds_missing:
  "map_of ms k = None \<Longrightarrow> exceeds (PyDict ms) k v = Inl (KeyError (PyStr k))"
  by (simp add: exceeds_def final_observation_def)

lemma exceeds_empty:
  "map_of ms k = Some (PyList []) \<Longrightarrow> exceeds (PyDict ms) k v = Inl IndexError"
  by (simp add: exceeds_def final_observation_def seq_index_def)

lemma exceeds_non_numeric_threshold:
  assumes "map_of ms k = Some (PyList obs)" and "obs \<noteq> []"
    and "as_number (last obs) \<noteq> None" and "as_number v = None"
  shows "exceeds (PyDict ms) k v = Inl TypeError"
proof -
  from assms(1,2) have "final_observation (PyDict ms) k = Inr (last obs)"
    by (simp add: final_observation_list)
  moreover from assms(3) obtain a where "as_number (last obs) = Some a" by auto
  ultimately show ?thesis
    using assms(4) by (simp add: exceeds_def py_gt_number_other)
qed

lemma getitem_final_keep_final: "getitem_int (keep_final x) (- 1) = getitem_int x (- 1)"
proof (cases x)
  case (PyList obs)
  then show ?thesis by (cases "obs = []") (simp_all add: seq_index_last)
qed simp_all

lemma map_of_keep_final:
  "map_of (map (\<lambda>kv. (fst kv, keep_final (snd kv))) ms) k = map_option keep_final (map_of ms k)"
  by (induction ms) auto

lemma final_observation_final_only:
  "final_observation (final_only report) k = final_observation report k"
  by (cases report)
    (auto simp: final_only_def final_observation_def map_of_keep_final
      getitem_final_keep_final split: option.splits)

lemma exceeds_final_only: "exceeds (final_only report) k v = exceeds report k v"
  by (simp add: exceeds_def final_observation_final_only)

lemma decision_final_only: "decision (final_only report) ts = decision report ts"
  by (induction ts) (auto simp: exceeds_final_only split: sum.splits)

lemma fst_check:
  "fst (regression_threshold_check td mi s) =
     (case td of PyDict ts \<Rightarrow> decision mi ts | _ \<Rightarrow> Inl AttributeError)"
  by (cases td) (simp_all add: regression_threshold_check_def loop_eq)








lemma exceeds_agree:
  "map_of m1 k = map_of m2 k \<Longrightarrow> exceeds (PyDict m1) k v = exceeds (PyDict m2) k v"
  by (simp add: exceeds_def final_observation_def)

lemma first_observation_agree:
  "map_of m1 k = map_of m2 k \<Longrightarrow> first_observation (PyDict m1) k = first_observation (PyDict m2) k"
  by (simp add: first_observation_def)

lemma decision_agree:
  "\<forall>k\<in>set (map fst ts). map_of m1 k = map_of m2 k \<Longrightarrow>
   decision (PyDict m1) ts = decision (PyDict m2) ts"
proof (induction ts)
  case Nil
  show ?case by simp
next
  case (Cons kv ts)
  obtain k v where kv: "kv = (k, v)" by (cases kv)
  from Cons.prems have "map_of m1 k = map_of m2 k" by (simp add: kv)
  then have "exceeds (PyDict m1) k v = exceeds (PyDict m2) k v" by (rule exceeds_agree)
  moreover from Cons have "decision (PyDict m1) ts = decision (PyDict m2) ts" by simp
  ultimately show ?case by (simp add: kv split: sum.splits)
qed

lemma loop_records_agree:
  "\<forall>k\<in>set (map fst ts). map_of m1 k = map_of m2 k \<Longrightarrow>
   loop_records (PyDict m1) ts = loop_records (PyDict m2) ts"
proof (induction ts)
  case Nil
  show ?case by simp
next
  case (Cons kv ts)
  obtain k v where kv: "kv = (k, v)" by (cases kv)
  from Cons.prems have same: "map_of m1 k = map_of m2 k" by (simp add: kv)
  then have "exceeds (PyDict m1) k v = exceeds (PyDict m2) k v" by (rule exceeds_agree)
  moreover from same have "first_observation (PyDict m1) k = first_observation (PyDict m2) k"
    by (rule first_observation_agree)
  moreover from Cons have "loop_records (PyDict m1) ts = loop_records (PyDict m2) ts" by simp
  ultimately show ?case by (simp add: kv split: sum.splits)
qed

lemma earlier_violation_stops:
  assumes "distinct (map fst (pre @ (k, v) # post))"
    and "k \<in> set compared_names"
    and "list_ex (violates mi) pre"
  shows "decision mi (pre @ (k, v) # post) = Inr ''False''"
proof -
  from assms(3) obtain kv where kv: "kv \<in> set pre" "violates mi kv"
    by (auto simp: list_ex_iff)
  from kv(1) obtain p1 p2 where pre: "pre = p1 @ kv # p2"
    by (auto dest: split_list)
  obtain k' v' where kv': "kv = (k', v')" by (cases kv)
  from kv(2) have k': "k' \<in> set compared_names" by (simp add: violates_def kv')
  from assms(1) have "k' \<noteq> k" by (auto simp: pre kv')
  have "list_all (passes mi) p1"
    unfolding list_all_iff
  proof
    fix e assume e: "e \<in> set p1"
    with assms(1) have "fst e \<noteq> k'" "fst e \<noteq> k"
      by (auto simp: pre kv')
    then have "fst e \<notin> set compared_names"
      using compared_names_two[OF k' assms(2) \<open>k' \<noteq> k\<close>] by blast
    then show "passes mi e" by (simp add: passes_def)
  qed
  from decision_stops[OF this, of k' v' "p2 @ (k, v) # post"] kv(2)
  show ?thesis by (simp add: pre kv')
qed

lemma decision_skip_entry:
  "k \<notin> set compared_names \<Longrightarrow> decision mi (pre @ (k, v) # post) = decision mi (pre @ post)"
  by (induction pre) (auto split: sum.splits)

lemma decision_at_entry:
  assumes "list_all (passes mi) pre" and "k \<in> set compared_names"
    and "getitem_str mi k = Inr (PyList obs)" and "obs \<noteq> []"
  shows "decision mi (pre @ (k, v) # post) =
           (case py_gt (last obs) v of Inl e \<Rightarrow> Inl e
            | Inr b \<Rightarrow> if b then Inr ''False'' else decision mi post)"
proof -
  from assms(3,4) have "exceeds mi k v = py_gt (last obs) v"
    by (simp add: exceeds_def final_observation_list)
  with assms(1,2) show ?thesis
    by (simp add: decision_pass_prefix)
qed



section \<open>The claims\<close>

text \<open>
  C1. When the check returns, it returns \<open>'False'\<close> (hold) if and only if at least one
  entry of the thresholds whose name is \<open>root_mean_squared_error\<close> or \<open>mae\<close> has a final
  observation greater than its threshold, and \<open>'deploy'\<close> otherwise. Entries of every
  other name are not compared.
\<close>

theorem hold_iff_compared_metric_exceeds:
  assumes "regression_threshold_check (PyDict ts) metrics_info s = (Inr tok, s')"
  shows "(tok = ''False'' \<longleftrightarrow> list_ex (violates metrics_info) ts) \<and>
         (tok = ''deploy'' \<longleftrightarrow> \<not> list_ex (violates metrics_info) ts)"
proof -
  from assms have "decision metrics_info ts = Inr tok"
    by (simp add: check_eq)
  from decision_cases[OF this] show ?thesis
    by (auto simp: list_all_iff list_ex_iff dest: passes_not_violates)
qed

theorem hold_iff_compared_metric_exceeds_witness:
  "regression_threshold_check
     (PyDict [(''root_mean_squared_error'', PyInt 2000)])
     (PyDict [(''root_mean_squared_error'', PyList [PyInt 3000, PyInt 2500, PyInt 2200])])
     (setLevel INFO fresh_logging)
   = (Inr ''False'',
      ((setLevel INFO fresh_logging)
         \<lparr>emitted :=
            [Log_k_v ''root_mean_squared_error'' (PyInt 2000),
             Log_returning_False (PyInt 3000) (PyInt 2000)]\<rparr>))
   \<and> list_ex
       (violates (PyDict [(''root_mean_squared_error'',
                           PyList [PyInt 3000, PyInt 2500, PyInt 2200])]))
       [(''root_mean_squared_error'', PyInt 2000)]"
proof -
  have run: "regression_threshold_check
     (PyDict [(''root_mean_squared_error'', PyInt 2000)])
     (PyDict [(''root_mean_squared_error'', PyList [PyInt 3000, PyInt 2500, PyInt 2200])])
     (setLevel INFO fresh_logging)
   = (Inr ''False'',
      ((setLevel INFO fresh_logging)
         \<lparr>emitted :=
            [Log_k_v ''root_mean_squared_error'' (PyInt 2000),
             Log_returning_False (PyInt 3000) (PyInt 2000)]\<rparr>))"
    by (simp add: regression_threshold_check_def threshold_loop.simps compared_names_def
        logging_info_def isEnabledFor_def INFO_def setLevel_def fresh_logging_def seq_index_def)
  from hold_iff_compared_metric_exceeds[OF run] run show ?thesis by simp
qed

text \<open>
  The claim as the specification states it fails on a threshold for \<open>mse\<close>: the final
  observation 20 is greater than the threshold 10, and the check returns \<open>'deploy'\<close>.
\<close>

theorem mse_above_threshold_deploys:
  "fst (regression_threshold_check
          (PyDict [(''mse'', PyInt 10)])
          (PyDict [(''mse'', PyList [PyInt 20])])
          (setLevel INFO fresh_logging)) = Inr ''deploy''
   \<and> list_ex (spec_violates (PyDict [(''mse'', PyList [PyInt 20])])) [(''mse'', PyInt 10)]"
  by (simp add: regression_threshold_check_def threshold_loop.simps compared_names_def
      spec_violates_def spec_lower_is_better_names_def final_observation_def seq_index_def)




text \<open>
  C3. The thresholds are a dict, so their names are pairwise distinct. When two or more
  entries named \<open>root_mean_squared_error\<close> or \<open>mae\<close> have a final observation greater
  than their threshold, the check returns \<open>'False'\<close> at the first of them in the order of
  the thresholds: it emits one record for each entry up to and including that one, then
  the record of the violation, and nothing for the entries after it, which it does not
  evaluate, so that the outcome is the one of the thresholds cut off after that entry.
\<close>

theorem hold_on_first_violation:
  assumes "distinct (map fst ts)"
    and "ts = pre @ (k, v) # post"
    and "violates metrics_info (k, v)"
    and "\<not> list_ex (violates metrics_info) pre"
    and "list_ex (violates metrics_info) post"
  shows "\<exists>first. first_observation metrics_info k = Inr first \<and>
           regression_threshold_check (PyDict ts) metrics_info s =
             (Inr ''False'',
              log_all (map entry_record (pre @ [(k, v)]) @ [Log_returning_False first v]) s) \<and>
           regression_threshold_check (PyDict ts) metrics_info s =
             regression_threshold_check (PyDict (pre @ [(k, v)])) metrics_info s"
proof -
  from assms(5) obtain k' v' where other: "(k', v') \<in> set post" "violates metrics_info (k', v')"
    by (auto simp: list_ex_iff)
  from assms(3) other(2) have names: "k \<in> set compared_names" "k' \<in> set compared_names"
    by (simp_all add: violates_def)
  from assms(1,2) other(1) have "k \<noteq> k'"
    by (auto simp: rev_image_eqI)
  have "list_all (passes metrics_info) pre"
    unfolding list_all_iff
  proof
    fix kv assume kv: "kv \<in> set pre"
    with assms(1,2) have "fst kv \<noteq> k" by auto
    moreover from kv assms(1,2) other(1) have "fst kv \<noteq> k'"
      by (auto simp: rev_image_eqI)
    ultimately have "fst kv \<notin> set compared_names"
      using compared_names_two[OF names \<open>k \<noteq> k'\<close>] by blast
    then show "passes metrics_info kv" by (simp add: passes_def)
  qed
  note pre = this
  from assms(3) have "exceeds metrics_info k v = Inr True" by (simp add: violates_def)
  from first_of_exceeds[OF this] obtain first
    where first: "first_observation metrics_info k = Inr first" ..
  have "regression_threshold_check (PyDict (pre @ (k, v) # post)) metrics_info s =
          (Inr ''False'',
           log_all (map entry_record (pre @ [(k, v)]) @ [Log_returning_False first v]) s)"
    for post
    by (simp only: check_eq decision_stops[OF pre assms(3)] records_stop[OF pre assms(3) first])
  from this[of post] this[of "[]"] first assms(2) show ?thesis by auto
qed



theorem hold_on_first_violation_witness:
  "regression_threshold_check
     (PyDict [(''accuracy'', PyInt 1), (''mae'', PyInt 5),
              (''root_mean_squared_error'', PyInt 2000), (''loss'', PyNone)])
     (PyDict [(''root_mean_squared_error'', PyList [PyInt 2200]),
              (''mae'', PyList [PyInt 9, PyInt 7])])
     (setLevel INFO fresh_logging)
   = (Inr ''False'',
      ((setLevel INFO fresh_logging)
         \<lparr>emitted :=
            [Log_k_v ''accuracy'' (PyInt 1), Log_k_v ''mae'' (PyInt 5),
             Log_returning_False (PyInt 9) (PyInt 5)]\<rparr>))"
proof -
  let ?report = "PyDict [(''root_mean_squared_error'', PyList [PyInt 2200]),
                         (''mae'', PyList [PyInt 9, PyInt 7])]"
  let ?ts = "[(''accuracy'', PyInt 1), (''mae'', PyInt 5),
              (''root_mean_squared_error'', PyInt 2000), (''loss'', PyNone)]"
  have h1: "distinct (map fst ?ts)" by simp
  have h2: "?ts = [(''accuracy'', PyInt 1)] @ (''mae'', PyInt 5) #
                  [(''root_mean_squared_error'', PyInt 2000), (''loss'', PyNone)]"
    by simp
  have h3: "violates ?report (''mae'', PyInt 5)"
    by (simp add: violates_def compared_names_def exceeds_def final_observation_def
        seq_index_def)
  have h4: "\<not> list_ex (violates ?report) [(''accuracy'', PyInt 1)]"
    by (simp add: violates_def compared_names_def)
  have h5: "list_ex (violates ?report)
              [(''root_mean_squared_error'', PyInt 2000), (''loss'', PyNone)]"
    by (simp add: violates_def compared_names_def exceeds_def final_observation_def
        seq_index_def)
  have first: "first_observation ?report ''mae'' = Inr (PyInt 9)"
    by (simp add: first_observation_def seq_index_def)
  from hold_on_first_violation[OF h1 h2 h3 h4 h5, of "(setLevel INFO fresh_logging)"] first
  have "regression_threshold_check (PyDict ?ts) ?report (setLevel INFO fresh_logging) =
          (Inr ''False'',
           log_all (map entry_record ([(''accuracy'', PyInt 1)] @ [(''mae'', PyInt 5)]) @
                    [Log_returning_False (PyInt 9) (PyInt 5)])
             (setLevel INFO fresh_logging))"
    by auto
  then show ?thesis
    by (simp add: entry_record_def logging_info_def isEnabledFor_def INFO_def setLevel_def fresh_logging_def)
qed

text \<open>
  The claim as the specification states it fails when the first violating entry has
  another name: with \<open>mse\<close> and \<open>mae\<close> both above their thresholds, in this order, the
  check does not stop at \<open>mse\<close>; it goes on to \<open>mae\<close>, evaluates it and reports it.
\<close>

theorem check_goes_past_mse_violation:
  "regression_threshold_check
     (PyDict [(''mse'', PyInt 10), (''mae'', PyInt 5)])
     (PyDict [(''mse'', PyList [PyInt 20]), (''mae'', PyList [PyInt 9, PyInt 7])])
     (setLevel INFO fresh_logging)
   = (Inr ''False'',
      ((setLevel INFO fresh_logging)
         \<lparr>emitted :=
            [Log_k_v ''mse'' (PyInt 10), Log_k_v ''mae'' (PyInt 5),
             Log_returning_False (PyInt 9) (PyInt 5)]\<rparr>))
   \<and> spec_violates
        (PyDict [(''mse'', PyList [PyInt 20]), (''mae'', PyList [PyInt 9, PyInt 7])])
        (''mse'', PyInt 10)
   \<and> spec_violates
        (PyDict [(''mse'', PyList [PyInt 20]), (''mae'', PyList [PyInt 9, PyInt 7])])
        (''mae'', PyInt 5)"
  by (simp add: regression_threshold_check_def threshold_loop.simps compared_names_def
      spec_violates_def spec_lower_is_better_names_def final_observation_def seq_index_def
      logging_info_def isEnabledFor_def INFO_def setLevel_def fresh_logging_def)

text \<open>
  C4. When an entry of the thresholds named \<open>root_mean_squared_error\<close> or \<open>mae\<close> is absent
  from the report, the check never returns \<open>'deploy'\<close>. When every entry before it
  passes, the check raises \<open>KeyError\<close> for that name. When an entry before it violates,
  the names of the thresholds being distinct, the check returns \<open>'False'\<close> and the
  report is never asked for the absent name. A threshold for a name that is not compared,
  such as \<open>rmse\<close>, gives \<open>'deploy'\<close> whether the report has that name or not.
\<close>

theorem missing_compared_metric_raises_KeyError:
  assumes "ts = pre @ (k, v) # post"
    and "k \<in> set compared_names"
    and "map_of ms k = None"
  shows "fst (regression_threshold_check (PyDict ts) (PyDict ms) s) \<noteq> Inr ''deploy'' \<and>
         (list_all (passes (PyDict ms)) pre \<longrightarrow>
            fst (regression_threshold_check (PyDict ts) (PyDict ms) s) =
              Inl (KeyError (PyStr k))) \<and>
         (distinct (map fst ts) \<and> list_ex (violates (PyDict ms)) pre \<longrightarrow>
            fst (regression_threshold_check (PyDict ts) (PyDict ms) s) = Inr ''False'') \<and>
         (k' \<notin> set compared_names \<longrightarrow>
            fst (regression_threshold_check (PyDict [(k', w)]) report s) = Inr ''deploy'')"
proof (intro conjI impI)
  show "fst (regression_threshold_check (PyDict ts) (PyDict ms) s) \<noteq> Inr ''deploy''"
    using entry_raises(1)[OF assms(2) exceeds_missing[OF assms(3), of v], where pre = pre and post = post]
    by (simp add: check_eq assms(1))
next
  assume "list_all (passes (PyDict ms)) pre"
  then show "fst (regression_threshold_check (PyDict ts) (PyDict ms) s) = Inl (KeyError (PyStr k))"
    using entry_raises(2)[OF assms(2) exceeds_missing[OF assms(3), of v], where pre = pre and post = post]
    by (simp add: check_eq assms(1))
next
  assume "distinct (map fst ts) \<and> list_ex (violates (PyDict ms)) pre"
  then show "fst (regression_threshold_check (PyDict ts) (PyDict ms) s) = Inr ''False''"
    using earlier_violation_stops[of pre k v post "PyDict ms"] assms(1,2)
    by (simp add: check_eq)
next
  assume "k' \<notin> set compared_names"
  then show "fst (regression_threshold_check (PyDict [(k', w)]) report s) = Inr ''deploy''"
    by (simp add: check_eq)
qed

theorem missing_compared_metric_raises_KeyError_witness:
  "fst (regression_threshold_check
          (PyDict [(''accuracy'', PyInt 1), (''mae'', PyInt 5),
                   (''root_mean_squared_error'', PyInt 2000)])
          (PyDict [(''mae'', PyList [PyInt 50, PyInt 4])])
          fresh_logging)
   = Inl (KeyError (PyStr ''root_mean_squared_error''))
   \<and> fst (regression_threshold_check
          (PyDict [(''accuracy'', PyInt 1), (''mae'', PyInt 5),
                   (''root_mean_squared_error'', PyInt 2000)])
          (PyDict [(''mae'', PyList [PyInt 50, PyInt 40])])
          fresh_logging)
   = Inr ''False''"
proof -
  let ?ts = "[(''accuracy'', PyInt 1), (''mae'', PyInt 5), (''root_mean_squared_error'', PyInt 2000)]"
  let ?pre = "[(''accuracy'', PyInt 1), (''mae'', PyInt 5)]"
  let ?ms = "[(''mae'', PyList [PyInt 50, PyInt 4])]"
  let ?ms' = "[(''mae'', PyList [PyInt 50, PyInt 40])]"
  have h1: "?ts = ?pre @ (''root_mean_squared_error'', PyInt 2000) # []"
    by simp
  have h2: "''root_mean_squared_error'' \<in> set compared_names"
    by (simp add: compared_names_def)
  have h3: "map_of ?ms ''root_mean_squared_error'' = None" by simp
  have h3': "map_of ?ms' ''root_mean_squared_error'' = None" by simp
  have h4: "list_all (passes (PyDict ?ms)) ?pre"
    by (simp add: passes_def compared_names_def exceeds_def final_observation_def seq_index_def)
  have h5: "distinct (map fst ?ts) \<and> list_ex (violates (PyDict ?ms')) ?pre"
    by (simp add: violates_def compared_names_def exceeds_def final_observation_def seq_index_def)
  from missing_compared_metric_raises_KeyError[OF h1 h2 h3, of fresh_logging] h4
  have a: "fst (regression_threshold_check (PyDict ?ts) (PyDict ?ms) fresh_logging)
             = Inl (KeyError (PyStr ''root_mean_squared_error''))"
    by blast
  from missing_compared_metric_raises_KeyError[OF h1 h2 h3', of fresh_logging] h5
  have b: "fst (regression_threshold_check (PyDict ?ts) (PyDict ?ms') fresh_logging) = Inr ''False''"
    by blast
  from a b show ?thesis by (rule conjI)
qed

text \<open>
  The claim as the specification states it fails on its own scenario: \<open>rmse\<close> is not a
  compared name, so with the report \<open>{"mae": [50, 40]}\<close> a threshold for \<open>rmse\<close>, written
  with a direction or as a plain number, gives \<open>'deploy'\<close>. And a compared name that is
  absent is never looked up when an earlier entry violates.
\<close>

theorem rmse_absent_from_report_deploys:
  "fst (regression_threshold_check
          (PyDict [(''rmse'', PyDict [(''threshold'', PyInt 10),
                                      (''direction'', PyStr ''LOWER_IS_BETTER'')])])
          (PyDict [(''mae'', PyList [PyInt 50, PyInt 40])])
          fresh_logging) = Inr ''deploy''
   \<and> fst (regression_threshold_check
          (PyDict [(''rmse'', PyInt 10)])
          (PyDict [(''mae'', PyList [PyInt 50, PyInt 40])])
          fresh_logging) = Inr ''deploy''
   \<and> fst (regression_threshold_check
          (PyDict [(''mae'', PyInt 10), (''root_mean_squared_error'', PyInt 2000)])
          (PyDict [(''mae'', PyList [PyInt 50, PyInt 40])])
          fresh_logging) = Inr ''False''"
  by (simp add: regression_threshold_check_def threshold_loop.simps compared_names_def
      seq_index_def)

text \<open>
  C5. When an entry of the thresholds named \<open>root_mean_squared_error\<close> or \<open>mae\<close> has an
  empty list of observations in the report, the check never returns \<open>'deploy'\<close>. When
  every entry before it passes, the check raises \<open>IndexError\<close>. When an entry before it
  violates, the names of the thresholds being distinct, the check returns \<open>'False'\<close> and
  the empty list is never read. A threshold for a name that is not compared, such as
  \<open>rmse\<close>, gives \<open>'deploy'\<close> on an empty list of observations.
\<close>

theorem empty_observations_raise_IndexError:
  assumes "ts = pre @ (k, v) # post"
    and "k \<in> set compared_names"
    and "map_of ms k = Some (PyList [])"
  shows "fst (regression_threshold_check (PyDict ts) (PyDict ms) s) \<noteq> Inr ''deploy'' \<and>
         (list_all (passes (PyDict ms)) pre \<longrightarrow>
            fst (regression_threshold_check (PyDict ts) (PyDict ms) s) = Inl IndexError) \<and>
         (distinct (map fst ts) \<and> list_ex (violates (PyDict ms)) pre \<longrightarrow>
            fst (regression_threshold_check (PyDict ts) (PyDict ms) s) = Inr ''False'') \<and>
         (k' \<notin> set compared_names \<longrightarrow>
            fst (regression_threshold_check (PyDict [(k', w)]) (PyDict [(k', PyList [])]) s) =
              Inr ''deploy'')"
proof (intro conjI impI)
  show "fst (regression_threshold_check (PyDict ts) (PyDict ms) s) \<noteq> Inr ''deploy''"
    using entry_raises(1)[OF assms(2) exceeds_empty[OF assms(3), of v], where pre = pre and post = post]
    by (simp add: check_eq assms(1))
next
  assume "list_all (passes (PyDict ms)) pre"
  then show "fst (regression_threshold_check (PyDict ts) (PyDict ms) s) = Inl IndexError"
    using entry_raises(2)[OF assms(2) exceeds_empty[OF assms(3), of v], where pre = pre and post = post]
    by (simp add: check_eq assms(1))
next
  assume "distinct (map fst ts) \<and> list_ex (violates (PyDict ms)) pre"
  then show "fst (regression_threshold_check (PyDict ts) (PyDict ms) s) = Inr ''False''"
    using earlier_violation_stops[of pre k v post "PyDict ms"] assms(1,2)
    by (simp add: check_eq)
next
  assume "k' \<notin> set compared_names"
  then show "fst (regression_threshold_check (PyDict [(k', w)]) (PyDict [(k', PyList [])]) s) =
              Inr ''deploy''"
    by (simp add: check_eq)
qed

theorem empty_observations_raise_IndexError_witness:
  "fst (regression_threshold_check
          (PyDict [(''loss'', PyInt 1), (''root_mean_squared_error'', PyInt 2000),
                   (''mae'', PyInt 5)])
          (PyDict [(''root_mean_squared_error'', PyList [PyInt 1800]), (''mae'', PyList [])])
          fresh_logging)
   = Inl IndexError
   \<and> fst (regression_threshold_check
          (PyDict [(''loss'', PyInt 1), (''root_mean_squared_error'', PyInt 2000),
                   (''mae'', PyInt 5)])
          (PyDict [(''root_mean_squared_error'', PyList [PyInt 2200]), (''mae'', PyList [])])
          fresh_logging)
   = Inr ''False''"
proof -
  let ?ts = "[(''loss'', PyInt 1), (''root_mean_squared_error'', PyInt 2000), (''mae'', PyInt 5)]"
  let ?pre = "[(''loss'', PyInt 1), (''root_mean_squared_error'', PyInt 2000)]"
  let ?ms = "[(''root_mean_squared_error'', PyList [PyInt 1800]), (''mae'', PyList [])]"
  let ?ms' = "[(''root_mean_squared_error'', PyList [PyInt 2200]), (''mae'', PyList [])]"
  have h1: "?ts = ?pre @ (''mae'', PyInt 5) # []"
    by simp
  have h2: "''mae'' \<in> set compared_names"
    by (simp add: compared_names_def)
  have h3: "map_of ?ms ''mae'' = Some (PyList [])" by simp
  have h3': "map_of ?ms' ''mae'' = Some (PyList [])" by simp
  have h4: "list_all (passes (PyDict ?ms)) ?pre"
    by (simp add: passes_def compared_names_def exceeds_def final_observation_def seq_index_def)
  have h5: "distinct (map fst ?ts) \<and> list_ex (violates (PyDict ?ms')) ?pre"
    by (simp add: violates_def compared_names_def exceeds_def final_observation_def seq_index_def)
  from empty_observations_raise_IndexError[OF h1 h2 h3, of fresh_logging] h4
  have a: "fst (regression_threshold_check (PyDict ?ts) (PyDict ?ms) fresh_logging) = Inl IndexError"
    by blast
  from empty_observations_raise_IndexError[OF h1 h2 h3', of fresh_logging] h5
  have b: "fst (regression_threshold_check (PyDict ?ts) (PyDict ?ms') fresh_logging) = Inr ''False''"
    by blast
  from a b show ?thesis by (rule conjI)
qed

text \<open>
  The claim as the specification states it fails on its own scenario: with the report
  \<open>{"rmse": []}\<close> a threshold for \<open>rmse\<close>, written with a direction or as a plain number,
  gives \<open>'deploy'\<close>. And an empty list under a compared name is never read when an earlier
  entry violates.
\<close>

theorem rmse_without_observations_deploys:
  "fst (regression_threshold_check
          (PyDict [(''rmse'', PyDict [(''threshold'', PyInt 10),
                                      (''direction'', PyStr ''LOWER_IS_BETTER'')])])
          (PyDict [(''rmse'', PyList [])])
          fresh_logging) = Inr ''deploy''
   \<and> fst (regression_threshold_check
          (PyDict [(''rmse'', PyInt 10)])
          (PyDict [(''rmse'', PyList [])])
          fresh_logging) = Inr ''deploy''
   \<and> fst (regression_threshold_check
          (PyDict [(''mae'', PyInt 10), (''root_mean_squared_error'', PyInt 2000)])
          (PyDict [(''mae'', PyList [PyInt 50, PyInt 40]),
                   (''root_mean_squared_error'', PyList [])])
          fresh_logging) = Inr ''False''"
  by (simp add: regression_threshold_check_def threshold_loop.simps compared_names_def
      seq_index_def)

text \<open>
  C6. For an entry of the thresholds named \<open>root_mean_squared_error\<close> or \<open>mae\<close> whose
  list of observations is not empty, the value compared against the threshold is the last
  element of the list, and that comparison decides: when the loop reaches the entry, the
  check raises what \<open>last obs > v\<close> raises, returns \<open>'False'\<close> when it is true, and
  otherwise goes on as the check of the entries after it. No earlier element counts:
  cutting every list of the report down to its last element changes neither the decision
  nor the exception, whatever the thresholds are. With the observations 3000, 2500, 1800
  of \<open>root_mean_squared_error\<close> and the threshold 2000 the check returns \<open>'deploy'\<close>.
  Entries of every other name are not compared with any element.
\<close>

theorem final_observation_is_compared:
  "fst (regression_threshold_check thresholds_dict (final_only report) s) =
     fst (regression_threshold_check thresholds_dict report s)
   \<and> (ts = pre @ (k, v) # post \<and> list_all (passes report) pre \<and> k \<in> set compared_names \<and>
       getitem_str report k = Inr (PyList obs) \<and> obs \<noteq> [] \<longrightarrow>
        fst (regression_threshold_check (PyDict ts) report s) =
          (case py_gt (last obs) v of Inl e \<Rightarrow> Inl e
           | Inr b \<Rightarrow>
               if b then Inr ''False''
               else fst (regression_threshold_check (PyDict post) report s)))
   \<and> fst (regression_threshold_check
            (PyDict [(''root_mean_squared_error'', PyInt 2000)])
            (PyDict [(''root_mean_squared_error'',
                      PyList [PyInt 3000, PyInt 2500, PyInt 1800])]) s) = Inr ''deploy''"
proof (intro conjI impI)
  show "fst (regression_threshold_check thresholds_dict (final_only report) s) =
     fst (regression_threshold_check thresholds_dict report s)"
    by (simp add: fst_check decision_final_only split: pyval.splits)
next
  assume h: "ts = pre @ (k, v) # post \<and> list_all (passes report) pre \<and>
    k \<in> set compared_names \<and> getitem_str report k = Inr (PyList obs) \<and> obs \<noteq> []"
  then have "decision report (pre @ (k, v) # post) =
           (case py_gt (last obs) v of Inl e \<Rightarrow> Inl e
            | Inr b \<Rightarrow> if b then Inr ''False'' else decision report post)"
    by (intro decision_at_entry) simp_all
  with h show "fst (regression_threshold_check (PyDict ts) report s) =
          (case py_gt (last obs) v of Inl e \<Rightarrow> Inl e
           | Inr b \<Rightarrow>
               if b then Inr ''False''
               else fst (regression_threshold_check (PyDict post) report s))"
    by (simp add: check_eq split: sum.splits)
next
  show "fst (regression_threshold_check
            (PyDict [(''root_mean_squared_error'', PyInt 2000)])
            (PyDict [(''root_mean_squared_error'',
                      PyList [PyInt 3000, PyInt 2500, PyInt 1800])]) s) = Inr ''deploy''"
    by (simp add: fst_check compared_names_def exceeds_def final_observation_def seq_index_def)
qed

theorem final_observation_is_compared_witness:
  "fst (regression_threshold_check
          (PyDict [(''accuracy'', PyInt 1), (''mae'', PyInt 5)])
          (PyDict [(''mae'', PyList [PyInt 1, PyInt 2, PyInt 9])])
          fresh_logging) = Inr ''False''"
proof -
  let ?report = "PyDict [(''mae'', PyList [PyInt 1, PyInt 2, PyInt 9])]"
  have h: "[(''accuracy'', PyInt 1), (''mae'', PyInt 5)] =
             [(''accuracy'', PyInt 1)] @ (''mae'', PyInt 5) # [] \<and>
           list_all (passes ?report) [(''accuracy'', PyInt 1)] \<and>
           ''mae'' \<in> set compared_names \<and>
           getitem_str ?report ''mae'' = Inr (PyList [PyInt 1, PyInt 2, PyInt 9]) \<and>
           [PyInt 1, PyInt 2, PyInt 9] \<noteq> []"
    by (simp add: passes_def compared_names_def)
  from final_observation_is_compared
         [where s = fresh_logging and ts = "[(''accuracy'', PyInt 1), (''mae'', PyInt 5)]"
            and pre = "[(''accuracy'', PyInt 1)]" and k = "''mae''" and v = "PyInt 5"
            and post = "[]" and report = ?report and obs = "[PyInt 1, PyInt 2, PyInt 9]"] h
  have "fst (regression_threshold_check
               (PyDict [(''accuracy'', PyInt 1), (''mae'', PyInt 5)]) ?report fresh_logging) =
          (case py_gt (last [PyInt 1, PyInt 2, PyInt 9]) (PyInt 5) of Inl e \<Rightarrow> Inl e
           | Inr b \<Rightarrow>
               if b then Inr ''False''
               else fst (regression_threshold_check (PyDict []) ?report fresh_logging))"
    by blast
  then show ?thesis by simp
qed

text \<open>
  The claim as the specification states it fails on a threshold for \<open>mse\<close>: the metric is
  thresholded and has observations, and its last observation is not compared. With the
  threshold 10 the check returns \<open>'deploy'\<close> on the observations 5, 20 as on the
  observations 5, 1.
\<close>

theorem last_mse_observation_not_compared:
  "fst (regression_threshold_check
          (PyDict [(''mse'', PyInt 10)]) (PyDict [(''mse'', PyList [PyInt 5, PyInt 20])])
          fresh_logging) = Inr ''deploy''
   \<and> spec_violates (PyDict [(''mse'', PyList [PyInt 5, PyInt 20])]) (''mse'', PyInt 10)
   \<and> fst (regression_threshold_check
          (PyDict [(''mse'', PyInt 10)]) (PyDict [(''mse'', PyList [PyInt 5, PyInt 1])])
          fresh_logging) = Inr ''deploy''
   \<and> \<not> spec_violates (PyDict [(''mse'', PyList [PyInt 5, PyInt 1])]) (''mse'', PyInt 10)"
  by (simp add: regression_threshold_check_def threshold_loop.simps compared_names_def
      spec_violates_def spec_lower_is_better_names_def final_observation_def seq_index_def)




text \<open>
  C8. When an entry of the thresholds named \<open>root_mean_squared_error\<close> or \<open>mae\<close> has a
  threshold that is \<open>None\<close>, a string, a list or a dict, and the report holds under that
  name a non-empty list whose last element is a number, the check never returns
  \<open>'deploy'\<close>. When every entry before it passes, the check raises \<open>TypeError\<close>. When
  an entry before it violates, the names of the thresholds being distinct, the check
  returns \<open>'False'\<close> and the threshold is never read. The threshold of an entry of any
  other name is never read: the entry can be removed, whatever its threshold, without
  changing the decision or the exception.
\<close>

theorem non_numeric_threshold_raises_TypeError:
  assumes "ts = pre @ (k, v) # post"
    and "k \<in> set compared_names"
    and "map_of ms k = Some (PyList obs)" and "obs \<noteq> []"
    and "as_number (last obs) \<noteq> None"
    and "as_number v = None"
  shows "fst (regression_threshold_check (PyDict ts) (PyDict ms) s) \<noteq> Inr ''deploy'' \<and>
         (list_all (passes (PyDict ms)) pre \<longrightarrow>
            fst (regression_threshold_check (PyDict ts) (PyDict ms) s) = Inl TypeError) \<and>
         (distinct (map fst ts) \<and> list_ex (violates (PyDict ms)) pre \<longrightarrow>
            fst (regression_threshold_check (PyDict ts) (PyDict ms) s) = Inr ''False'') \<and>
         (k' \<notin> set compared_names \<longrightarrow>
            fst (regression_threshold_check (PyDict (pre' @ (k', w) # post')) report s) =
            fst (regression_threshold_check (PyDict (pre' @ post')) report s))"
proof (intro conjI impI)
  note raises = entry_raises[OF assms(2) exceeds_non_numeric_threshold[OF assms(3-6)],
      where pre = pre and post = post]
  show "fst (regression_threshold_check (PyDict ts) (PyDict ms) s) \<noteq> Inr ''deploy''"
    using raises(1) by (simp add: check_eq assms(1))
  show "fst (regression_threshold_check (PyDict ts) (PyDict ms) s) = Inl TypeError"
    if "list_all (passes (PyDict ms)) pre"
    using raises(2) that by (simp add: check_eq assms(1))
next
  assume "distinct (map fst ts) \<and> list_ex (violates (PyDict ms)) pre"
  then show "fst (regression_threshold_check (PyDict ts) (PyDict ms) s) = Inr ''False''"
    using earlier_violation_stops[of pre k v post "PyDict ms"] assms(1,2)
    by (simp add: check_eq)
next
  assume "k' \<notin> set compared_names"
  then show "fst (regression_threshold_check (PyDict (pre' @ (k', w) # post')) report s) =
             fst (regression_threshold_check (PyDict (pre' @ post')) report s)"
    by (simp add: check_eq decision_skip_entry)
qed

theorem non_numeric_threshold_raises_TypeError_witness:
  "fst (regression_threshold_check
          (PyDict [(''root_mean_squared_error'', PyInt 2000), (''mae'', PyStr ''low'')])
          (PyDict [(''root_mean_squared_error'', PyList [PyInt 1800]),
                   (''mae'', PyList [PyInt 9, PyInt 7])])
          fresh_logging)
   = Inl TypeError
   \<and> fst (regression_threshold_check
          (PyDict [(''root_mean_squared_error'', PyInt 2000), (''mae'', PyStr ''low'')])
          (PyDict [(''root_mean_squared_error'', PyList [PyInt 2200]),
                   (''mae'', PyList [PyInt 9, PyInt 7])])
          fresh_logging)
   = Inr ''False''"
proof -
  let ?ts = "[(''root_mean_squared_error'', PyInt 2000), (''mae'', PyStr ''low'')]"
  let ?pre = "[(''root_mean_squared_error'', PyInt 2000)]"
  let ?ms = "[(''root_mean_squared_error'', PyList [PyInt 1800]),
              (''mae'', PyList [PyInt 9, PyInt 7])]"
  let ?ms' = "[(''root_mean_squared_error'', PyList [PyInt 2200]),
               (''mae'', PyList [PyInt 9, PyInt 7])]"
  have h1: "?ts = ?pre @ (''mae'', PyStr ''low'') # []"
    by simp
  have h2: "''mae'' \<in> set compared_names"
    by (simp add: compared_names_def)
  have h3: "map_of ?ms ''mae'' = Some (PyList [PyInt 9, PyInt 7])" by simp
  have h3': "map_of ?ms' ''mae'' = Some (PyList [PyInt 9, PyInt 7])" by simp
  have h4: "[PyInt 9, PyInt 7] \<noteq> []" by simp
  have h5: "as_number (last [PyInt 9, PyInt 7]) \<noteq> None" by simp
  have h6: "as_number (PyStr ''low'') = None" by simp
  have h7: "list_all (passes (PyDict ?ms)) ?pre"
    by (simp add: passes_def compared_names_def exceeds_def final_observation_def seq_index_def)
  have h8: "distinct (map fst ?ts) \<and> list_ex (violates (PyDict ?ms')) ?pre"
    by (simp add: violates_def compared_names_def exceeds_def final_observation_def seq_index_def)
  from non_numeric_threshold_raises_TypeError[OF h1 h2 h3 h4 h5 h6, of fresh_logging] h7
  have a: "fst (regression_threshold_check (PyDict ?ts) (PyDict ?ms) fresh_logging) = Inl TypeError"
    by blast
  from non_numeric_threshold_raises_TypeError[OF h1 h2 h3' h4 h5 h6, of fresh_logging] h8
  have b: "fst (regression_threshold_check (PyDict ?ts) (PyDict ?ms') fresh_logging) = Inr ''False''"
    by blast
  from a b show ?thesis by (rule conjI)
qed

text \<open>
  The claim as the specification states it fails in four ways. A string as the threshold
  of \<open>accuracy\<close> is never read and the check returns \<open>'deploy'\<close>. The threshold \<open>true\<close> is
  a number for Python and 1800 is greater. A string threshold compares with a string
  observation. And a string threshold is never read when an earlier entry violates.
\<close>

theorem non_numeric_threshold_gives_decision:
  "fst (regression_threshold_check
          (PyDict [(''accuracy'', PyStr ''high'')])
          (PyDict [(''accuracy'', PyList [PyInt 1])])
          fresh_logging) = Inr ''deploy''
   \<and> fst (regression_threshold_check
          (PyDict [(''root_mean_squared_error'', PyBool True)])
          (PyDict [(''root_mean_squared_error'', PyList [PyInt 1800])])
          fresh_logging) = Inr ''False''
   \<and> fst (regression_threshold_check
          (PyDict [(''mae'', PyStr ''abc'')])
          (PyDict [(''mae'', PyList [PyStr ''abd''])])
          fresh_logging) = Inr ''False''
   \<and> fst (regression_threshold_check
          (PyDict [(''root_mean_squared_error'', PyInt 2000), (''mae'', PyStr ''low'')])
          (PyDict [(''root_mean_squared_error'', PyList [PyInt 2200]),
                   (''mae'', PyList [PyInt 9, PyInt 7])])
          fresh_logging) = Inr ''False''"
  by (simp add: regression_threshold_check_def threshold_loop.simps compared_names_def
      seq_index_def)



text \<open>
  C10. Metrics of the report that the thresholds do not name have no influence: two
  reports that hold the same under every name of the thresholds give the same decision or
  the same exception, and the same records.
\<close>

theorem unnamed_metrics_do_not_matter:
  assumes "\<forall>k\<in>set (map fst ts). map_of m1 k = map_of m2 k"
  shows "regression_threshold_check (PyDict ts) (PyDict m1) s =
         regression_threshold_check (PyDict ts) (PyDict m2) s"
  by (simp only: check_eq decision_agree[OF assms] loop_records_agree[OF assms])

theorem unnamed_metrics_do_not_matter_witness:
  "regression_threshold_check (PyDict [(''mae'', PyInt 5)])
     (PyDict [(''mae'', PyList [PyInt 9, PyInt 7]), (''r2'', PyList [PyInt 1])])
     (setLevel INFO fresh_logging) =
   regression_threshold_check (PyDict [(''mae'', PyInt 5)])
     (PyDict [(''root_mean_squared_error'', PyList []), (''mae'', PyList [PyInt 9, PyInt 7]),
              (''r2'', PyStr ''none'')])
     (setLevel INFO fresh_logging)"
proof -
  have "\<forall>k\<in>set (map fst [(''mae'', PyInt 5)]).
          map_of [(''mae'', PyList [PyInt 9, PyInt 7]), (''r2'', PyList [PyInt 1])] k =
          map_of [(''root_mean_squared_error'', PyList []), (''mae'', PyList [PyInt 9, PyInt 7]),
                  (''r2'', PyStr ''none'')] k"
    by simp
  then show ?thesis by (rule unnamed_metrics_do_not_matter)
qed

end
